theory Spec2Isabelle
  imports Main "HOL-Library.AList"
begin

section \<open>Python objects handled by the plugin\<close>

text \<open>
  The plugin of \<^verbatim>\<open>plugin.py\<close> inspects Python objects at run time: classes, generic
  aliases such as \<^verbatim>\<open>list[Pet]\<close>, union types such as \<^verbatim>\<open>Pet | None\<close>, and plain values.
  The datatypes below are the part of that object universe the source distinguishes.
\<close>

text \<open>The exceptions of a run, by class; \<open>OtherError n\<close> is an exception of any other class
  \<open>n\<close>.\<close>

datatype error =
  TypeError | KeyError | AttributeError | SyntaxError | NameError | OtherError string

text \<open>Plain values. \<open>NODEFAULT\<close> is the sentinel object of msgspec; \<open>PyNone\<close> is \<^verbatim>\<open>None\<close>.\<close>

datatype py_val = NODEFAULT | PyNone | PyBool bool | PyInt int | PyStr string | PyObj nat

text \<open>
  The objects that occur as \<^verbatim>\<open>__origin__\<close>, as \<^verbatim>\<open>__class__\<close> or as a key or value of
  \<^verbatim>\<open>TYPE_CONSTRUCTOR_MAP\<close>: the builtins \<^verbatim>\<open>dict\<close>, \<^verbatim>\<open>list\<close>, \<^verbatim>\<open>set\<close>, the class
  \<^verbatim>\<open>types.UnionType\<close>, the special form \<^verbatim>\<open>typing.Union\<close>, and any other one by name.
\<close>

datatype tycon = dict_t | list_t | set_t | UnionType | typing_Union | other_t string

text \<open>
  A class deriving from \<^verbatim>\<open>msgspec.Struct\<close>. Two distinct class objects may carry the same
  \<^verbatim>\<open>__name__\<close>; the serial number tells them apart, so equality of \<open>struct_cls\<close> values is
  identity of class objects.
\<close>

datatype struct_cls = StructCls (cls_name: string) (cls_serial: nat)

text \<open>
  A type expression, or any other object found where one is expected:
  \<^item> \<open>StructT s\<close>: the struct class \<open>s\<close>;
  \<^item> \<open>ModelT i\<close>: the generated pydantic class with object identity \<open>i\<close>;
  \<^item> \<open>ClassT n\<close>: any other class (\<^verbatim>\<open>int\<close>, \<^verbatim>\<open>str\<close>, ...);
  \<^item> \<open>NoneTypeT\<close>: the class \<^verbatim>\<open>None.__class__\<close>;
  \<^item> \<open>AliasT c ts\<close>: a generic alias with \<^verbatim>\<open>__origin__ = c\<close> and \<^verbatim>\<open>__args__ = ts\<close>, such as
    \<^verbatim>\<open>list[int]\<close>, \<^verbatim>\<open>dict[str, int]\<close>, \<^verbatim>\<open>typing.Union[int, str]\<close>;
  \<^item> \<open>UnionT ts\<close>: an instance of \<^verbatim>\<open>types.UnionType\<close> (\<^verbatim>\<open>X | Y\<close>); it has \<^verbatim>\<open>__args__\<close> and no
    \<^verbatim>\<open>__origin__\<close>;
  \<^item> \<open>ForwardRefT n\<close>: an instance of \<^verbatim>\<open>typing.ForwardRef\<close> for the name \<open>n\<close>;
  \<^item> \<open>ValueT v\<close>: an object that is neither a class nor an alias (\<^verbatim>\<open>None\<close>, \<^verbatim>\<open>3\<close>, \<^verbatim>\<open>'Pet'\<close>).
\<close>

datatype ty =
    StructT struct_cls
  | ModelT nat
  | ClassT string
  | NoneTypeT
  | AliasT tycon "ty list"
  | UnionT "ty list"
  | ForwardRefT string
  | ValueT py_val

text \<open>\<^verbatim>\<open>inspect.isclass\<close> (Python 3.11 and later, which the star subscript of line 69 needs).\<close>

fun isclass :: "ty \<Rightarrow> bool" where
  "isclass (StructT s) = True"
| "isclass (ModelT i) = True"
| "isclass (ClassT n) = True"
| "isclass NoneTypeT = True"
| "isclass (AliasT c ts) = False"
| "isclass (UnionT ts) = False"
| "isclass (ForwardRefT n) = False"
| "isclass (ValueT v) = False"

text \<open>\<^verbatim>\<open>issubclass(value, Struct)\<close>: raises \<^verbatim>\<open>TypeError\<close> when the first argument is no class.\<close>

fun issubclass_Struct :: "ty \<Rightarrow> error + bool" where
  "issubclass_Struct (StructT s) = Inr True"
| "issubclass_Struct t = (if isclass t then Inr False else Inl TypeError)"

text \<open>\<^verbatim>\<open>hasattr(type_, "__origin__")\<close> and \<^verbatim>\<open>type_.__origin__\<close>.\<close>

fun origin :: "ty \<Rightarrow> tycon option" where
  "origin (AliasT c ts) = Some c"
| "origin t = None"

definition hasattr_origin :: "ty \<Rightarrow> bool" where
  "hasattr_origin t = (origin t \<noteq> None)"

text \<open>\<^verbatim>\<open>type_.__class__\<close>, as far as the source compares it: only \<^verbatim>\<open>UnionType\<close> is told apart.\<close>

fun class_of :: "ty \<Rightarrow> tycon" where
  "class_of (UnionT ts) = UnionType"
| "class_of (AliasT c ts) = other_t ''GenericAlias''"
| "class_of (ForwardRefT n) = other_t ''ForwardRef''"
| "class_of (ValueT v) = other_t ''object''"
| "class_of t = other_t ''type''"


section \<open>The plugin\<close>

text \<open>Line 16: \<^verbatim>\<open>{dict: dict, list: list, set: set, UnionType: Union}\<close>.\<close>

definition TYPE_CONSTRUCTOR_MAP :: "tycon \<rightharpoonup> tycon" where
  "TYPE_CONSTRUCTOR_MAP =
     map_of [(dict_t, dict_t), (list_t, list_t), (set_t, set_t), (UnionType, typing_Union)]"

text \<open>A field descriptor of msgspec (\<^verbatim>\<open>msgspec.structs.FieldInfo\<close>); \<open>fencode_name = None\<close>
  stands for a descriptor without the attribute \<^verbatim>\<open>encode_name\<close>.\<close>

record MFieldInfo =
  fname :: string
  ftype :: ty
  fdefault :: py_val
  fdefault_factory :: py_val
  fencode_name :: "string option"

text \<open>\<^verbatim>\<open>PFieldInfo(**field_info_kwargs)\<close>: the keyword arguments it was built from, in
  insertion order.\<close>

type_synonym PFieldInfo = "(string \<times> py_val) list"

text \<open>The dictionary \<^verbatim>\<open>field_definitions\<close> of lines 87-103, in insertion order.\<close>

type_synonym field_definitions = "(string \<times> (ty \<times> PFieldInfo)) list"

text \<open>A generated pydantic class: its name, its configuration and, for each of its fields,
  the type and the metadata it holds.\<close>

record pyd_model =
  model_name :: string
  model_config :: "(string \<times> bool) list"
  model_fields :: "(string \<times> (ty \<times> PFieldInfo)) list"

text \<open>
  The two library operations whose result the source takes as it comes. They are
  arguments of the model, so that what is proved of the plugin holds whatever they do:
  \<^item> \<open>typing_Union_getitem\<close> is \<^verbatim>\<open>typing.Union[...]\<close> applied to an argument tuple (line 69).
    It returns an object, which need not be a union and need not hold the arguments as
    passed, or raises.
  \<^item> \<open>create_model\<close> is \<^verbatim>\<open>pydantic.create_model\<close> applied to a name, a configuration and
    field definitions (lines 104-117). It returns the content of the class it has built,
    which need not hold the field definitions as passed, or raises.
\<close>

record collaborators =
  typing_Union_getitem :: "ty list \<Rightarrow> error + ty"
  create_model :: "string \<Rightarrow> (string \<times> bool) list \<Rightarrow> field_definitions \<Rightarrow> error + pyd_model"

text \<open>
  The plugin instance together with the generated class objects it refers to:
  \<open>struct_namespace_map\<close> is the dictionary \<^verbatim>\<open>self._struct_namespace_map\<close>, holding the
  identity of a generated class under each name; \<open>models\<close> is the store of generated class
  objects, the class with identity \<open>i\<close> at position \<open>i\<close>.
\<close>

record MsgspecPlugin =
  struct_namespace_map :: "string \<rightharpoonup> nat"
  models :: "pyd_model list"

text \<open>Lines 22-23: \<^verbatim>\<open>__init__\<close>.\<close>

definition init :: MsgspecPlugin where
  "init = \<lparr>struct_namespace_map = Map.empty, models = []\<rparr>"

text \<open>Lines 25-30: only \<^verbatim>\<open>TypeError\<close> is caught.\<close>

definition is_plugin_supported_type :: "ty \<Rightarrow> error + bool" where
  "is_plugin_supported_type v =
     (case issubclass_Struct v of
        Inr b \<Rightarrow> Inr b
      | Inl TypeError \<Rightarrow> Inr False
      | Inl e \<Rightarrow> Inl e)"

text \<open>Lines 32-41: the list is mutated in place; the model returns the new list. The test
  \<^verbatim>\<open>name not in self._struct_namespace_map\<close> is that the lookup finds nothing.\<close>

definition handle_nested_stuct ::
  "MsgspecPlugin \<Rightarrow> struct_cls \<Rightarrow> string \<Rightarrow> struct_cls list \<Rightarrow> struct_cls list" where
  "handle_nested_stuct self struct parent_name parent_nested_structs =
     (let nested_struct_name = cls_name struct in
      if nested_struct_name \<noteq> parent_name \<and> struct_namespace_map self nested_struct_name = None
      then parent_nested_structs @ [struct]
      else parent_nested_structs)"

text \<open>Lines 43-46; Python reads \<^verbatim>\<open>a and b or c\<close> as \<^verbatim>\<open>(a and b) or c\<close>.\<close>

definition is_complex_type :: "ty \<Rightarrow> bool" where
  "is_complex_type t =
     ((hasattr_origin t \<and> origin t \<in> {Some list_t, Some set_t}) \<or> class_of t = UnionType)"

text \<open>The test \<^verbatim>\<open>isclass(t) and issubclass(t, Struct)\<close> of lines 58 and 90, giving the struct
  class when it succeeds.\<close>

definition struct_class :: "ty \<Rightarrow> struct_cls option" where
  "struct_class t =
     (if isclass t \<and> issubclass_Struct t = Inr True
      then (case t of StructT s \<Rightarrow> Some s | _ \<Rightarrow> None)
      else None)"

text \<open>Line 54.\<close>

definition type_root :: "ty \<Rightarrow> tycon" where
  "type_root t = (case origin t of Some c \<Rightarrow> c | None \<Rightarrow> class_of t)"

text \<open>
  Line 69, right of the lookup: the constructor found is subscripted with the argument
  tuple. The values of \<^verbatim>\<open>TYPE_CONSTRUCTOR_MAP\<close> are the builtins \<^verbatim>\<open>dict\<close>, \<^verbatim>\<open>list\<close> and
  \<^verbatim>\<open>set\<close>, whose subscript is the generic alias of the builtin with the arguments as
  passed (\<^verbatim>\<open>types.GenericAlias\<close>), and \<^verbatim>\<open>typing.Union\<close>, whose subscript is the
  collaborator's.
\<close>

definition class_getitem :: "collaborators \<Rightarrow> tycon \<Rightarrow> ty list \<Rightarrow> error + ty" where
  "class_getitem lib k type_args =
     (if k = typing_Union then typing_Union_getitem lib type_args
      else Inr (AliasT k type_args))"

text \<open>Line 69: the lookup raises \<^verbatim>\<open>KeyError\<close> for a missing key.\<close>

definition rebuild_root :: "collaborators \<Rightarrow> tycon \<Rightarrow> ty list \<Rightarrow> error + ty" where
  "rebuild_root lib root type_args =
     (case TYPE_CONSTRUCTOR_MAP root of
        None \<Rightarrow> Inl KeyError
      | Some k \<Rightarrow> class_getitem lib k type_args)"

text \<open>
  Lines 48-69. \<open>type_args_loop\<close> is the \<^verbatim>\<open>for\<close> loop of lines 57-68, with the list
  \<^verbatim>\<open>type_args\<close> as accumulator. Reading \<^verbatim>\<open>__args__\<close> of an object without it raises
  \<^verbatim>\<open>AttributeError\<close>; line 69 is evaluated after the loop has run. The caller's list
  \<^verbatim>\<open>parent_nested_structs\<close> is mutated in place, so the list as it stands is part of every
  outcome, an exception included; the second component is the value returned or the
  exception raised.
\<close>

fun get_complex_type ::
  "collaborators \<Rightarrow> MsgspecPlugin \<Rightarrow> ty \<Rightarrow> string \<Rightarrow> struct_cls list
     \<Rightarrow> struct_cls list \<times> (error + ty)"
and type_args_loop ::
  "collaborators \<Rightarrow> MsgspecPlugin \<Rightarrow> ty list \<Rightarrow> string \<Rightarrow> struct_cls list \<Rightarrow> ty list
     \<Rightarrow> struct_cls list \<times> (error + ty list)"
where
  "get_complex_type lib self (AliasT c ts) parent_name nested =
     (case type_args_loop lib self ts parent_name nested [] of
        (nested', Inl e) \<Rightarrow> (nested', Inl e)
      | (nested', Inr type_args) \<Rightarrow>
          (nested', rebuild_root lib (type_root (AliasT c ts)) type_args))"
| "get_complex_type lib self (UnionT ts) parent_name nested =
     (case type_args_loop lib self ts parent_name nested [] of
        (nested', Inl e) \<Rightarrow> (nested', Inl e)
      | (nested', Inr type_args) \<Rightarrow>
          (nested', rebuild_root lib (type_root (UnionT ts)) type_args))"
| "get_complex_type lib self t parent_name nested = (nested, Inl AttributeError)"
| "type_args_loop lib self [] parent_name nested type_args = (nested, Inr type_args)"
| "type_args_loop lib self (t # ts) parent_name nested type_args =
     (case struct_class t of
        Some s \<Rightarrow>
          type_args_loop lib self ts parent_name
            (handle_nested_stuct self s parent_name nested)
            (type_args @ [ValueT (PyStr (cls_name s))])
      | None \<Rightarrow>
          if t = NoneTypeT then
            type_args_loop lib self ts parent_name nested (type_args @ [ValueT PyNone])
          else if is_complex_type t then
            (case get_complex_type lib self t parent_name nested of
               (nested', Inl e) \<Rightarrow> (nested', Inl e)
             | (nested', Inr r) \<Rightarrow>
                 type_args_loop lib self ts parent_name nested' (type_args @ [r]))
          else
            type_args_loop lib self ts parent_name nested (type_args @ [t]))"

text \<open>Lines 71-82: the keyword dictionary, filled in the source's order.\<close>

definition generate_field_info :: "MFieldInfo \<Rightarrow> PFieldInfo" where
  "generate_field_info field =
     (let kw0 = [];
          kw1 = (case fencode_name field of
                   Some n \<Rightarrow> AList.update ''alias'' (PyStr n) kw0
                 | None \<Rightarrow> kw0);
          kw2 = (if fdefault field \<noteq> NODEFAULT
                 then AList.update ''default'' (fdefault field) kw1 else kw1);
          kw3 = (if fdefault_factory field \<noteq> NODEFAULT
                 then AList.update ''default_factory'' (fdefault_factory field) kw2 else kw2)
      in kw3)"

text \<open>
  The struct classes of a program, each with the field descriptors that
  \<^verbatim>\<open>msgspec.structs.fields\<close> returns for it, in declaration order. A class that is not
  listed declares no field.
\<close>

type_synonym class_table = "(struct_cls \<times> MFieldInfo list) list"

definition fields :: "class_table \<Rightarrow> struct_cls \<Rightarrow> MFieldInfo list" where
  "fields CT model_class = (case map_of CT model_class of Some fs \<Rightarrow> fs | None \<Rightarrow> [])"

text \<open>
  Lines 89-103: the loop over the field descriptors, threading the dictionary
  \<^verbatim>\<open>field_definitions\<close> and the list \<^verbatim>\<open>nested_structs\<close>, both local to the call: an
  exception leaves neither behind. An assignment to a key of a Python dictionary replaces
  the value of a key already present and appends a new key otherwise, which is
  \<^const>\<open>AList.update\<close>.
\<close>

fun scan_fields ::
  "collaborators \<Rightarrow> MsgspecPlugin \<Rightarrow> string \<Rightarrow> MFieldInfo list \<Rightarrow> field_definitions
     \<Rightarrow> struct_cls list \<Rightarrow> error + (field_definitions \<times> struct_cls list)"
where
  "scan_fields lib self struct_name [] field_definitions nested_structs =
     Inr (field_definitions, nested_structs)"
| "scan_fields lib self struct_name (field # rest) field_definitions nested_structs =
     (case struct_class (ftype field) of
        Some s \<Rightarrow>
          scan_fields lib self struct_name rest
            (AList.update (fname field)
               (ValueT (PyStr (cls_name s)), generate_field_info field) field_definitions)
            (handle_nested_stuct self s struct_name nested_structs)
      | None \<Rightarrow>
          if is_complex_type (ftype field) then
            (case get_complex_type lib self (ftype field) struct_name nested_structs of
               (nested_structs', Inl e) \<Rightarrow> Inl e
             | (nested_structs', Inr pydantic_type) \<Rightarrow>
                 scan_fields lib self struct_name rest
                   (AList.update (fname field)
                      (pydantic_type, generate_field_info field) field_definitions)
                   nested_structs')
          else
            scan_fields lib self struct_name rest
              (AList.update (fname field)
                 (ftype field, generate_field_info field) field_definitions)
              nested_structs)"

text \<open>Lines 106-115: the configuration class passed to \<^verbatim>\<open>create_model\<close>.\<close>

definition Config :: "(string \<times> bool) list" where
  "Config = [(''orm_mode'', True), (''arbitrary_types_allowed'', True),
             (''use_enum_values'', True), (''allow_population_by_field_name'', True)]"

text \<open>
  \<^verbatim>\<open>update_forward_refs\<close> of pydantic, the collaborator that resolves forward references
  against a namespace (specification, sections 4.3 step 5 and 9): a name held in a
  field's type, as a string or as a forward reference, at top level or under the
  constructors the rebuilder produces, is replaced by the class the namespace gives for
  it; a name the namespace lacks stays.
\<close>

fun resolve :: "(string \<rightharpoonup> nat) \<Rightarrow> ty \<Rightarrow> ty" where
  "resolve ns (ValueT (PyStr n)) = (case ns n of Some i \<Rightarrow> ModelT i | None \<Rightarrow> ValueT (PyStr n))"
| "resolve ns (ForwardRefT n) = (case ns n of Some i \<Rightarrow> ModelT i | None \<Rightarrow> ForwardRefT n)"
| "resolve ns (AliasT c ts) =
     (if c \<in> {dict_t, list_t, set_t, typing_Union} then AliasT c (map (resolve ns) ts)
      else AliasT c ts)"
| "resolve ns t = t"

definition resolve_model :: "(string \<rightharpoonup> nat) \<Rightarrow> pyd_model \<Rightarrow> pyd_model" where
  "resolve_model ns m =
     m\<lparr>model_fields := map (\<lambda>(k, (t, info)). (k, (resolve ns t, info))) (model_fields m)\<rparr>"

definition update_forward_refs :: "(string \<rightharpoonup> nat) \<Rightarrow> nat \<Rightarrow> pyd_model list \<Rightarrow> pyd_model list" where
  "update_forward_refs localns model ms =
     (if model < length ms then ms[model := resolve_model localns (ms ! model)] else ms)"

text \<open>
  Line 104, left of the call: the class that \<^verbatim>\<open>create_model\<close> has built is a new object,
  whose identity is the next free position of the store, and it is stored in the
  dictionary under the struct's name.
\<close>

definition register :: "MsgspecPlugin \<Rightarrow> string \<Rightarrow> pyd_model \<Rightarrow> MsgspecPlugin" where
  "register self struct_name new_class =
     self\<lparr>struct_namespace_map := (struct_namespace_map self)(struct_name \<mapsto> length (models self)),
          models := models self @ [new_class]\<rparr>"

text \<open>Lines 120-122: the dictionary lookup raises \<^verbatim>\<open>KeyError\<close> for a missing name.\<close>

definition finish :: "MsgspecPlugin \<Rightarrow> string \<Rightarrow> MsgspecPlugin \<times> (error + nat)" where
  "finish self struct_name =
     (case struct_namespace_map self struct_name of
        None \<Rightarrow> (self, Inl KeyError)
      | Some model \<Rightarrow>
          (self\<lparr>models := update_forward_refs (struct_namespace_map self) model (models self)\<rparr>,
           Inr model))"

text \<open>
  Lines 84-122. \<open>convert_nested\<close> is the loop of lines 118-119. The plugin is mutated in
  place, so the plugin as it stands is part of every outcome: an exception raised by a
  collaborator or by a recursive call leaves the loop and the caller with the entries
  made so far. The second component is the identity of the class returned or the
  exception raised. The depth of the interpreter's call stack, one frame for each level
  of nesting, is not bounded here.
\<close>

function to_pydantic_model_class ::
  "collaborators \<Rightarrow> class_table \<Rightarrow> MsgspecPlugin \<Rightarrow> struct_cls \<Rightarrow> MsgspecPlugin \<times> (error + nat)"
and convert_nested ::
  "collaborators \<Rightarrow> class_table \<Rightarrow> MsgspecPlugin \<Rightarrow> struct_cls list
     \<Rightarrow> MsgspecPlugin \<times> (error + unit)"
where
  "to_pydantic_model_class lib CT self model_class =
     (let struct_name = cls_name model_class in
      case (if struct_namespace_map self struct_name = None then
              (case scan_fields lib self struct_name (fields CT model_class) [] [] of
                 Inl e \<Rightarrow> (self, Inl e)
               | Inr (field_definitions, nested_structs) \<Rightarrow>
                   (case create_model lib struct_name Config field_definitions of
                      Inl e \<Rightarrow> (self, Inl e)
                    | Inr new_class \<Rightarrow>
                        convert_nested lib CT (register self struct_name new_class)
                          nested_structs))
            else (self, Inr ())) of
        (self', Inl e) \<Rightarrow> (self', Inl e)
      | (self', Inr u) \<Rightarrow> finish self' struct_name)"
| "convert_nested lib CT self [] = (self, Inr ())"
| "convert_nested lib CT self (nested_struct # rest) =
     (case to_pydantic_model_class lib CT self nested_struct of
        (self', Inl e) \<Rightarrow> (self', Inl e)
      | (self', Inr model) \<Rightarrow> convert_nested lib CT self' rest)"
  by pat_completeness auto

section \<open>Notions of the specification\<close>

text \<open>
  The struct classes a declared type refers to, in the specification's sense (section 3):
  the type is a nested struct class, or a composite built from the ordered-sequence, set
  and union constructors around one. Any other type is opaque.
\<close>

fun struct_refs :: "ty \<Rightarrow> struct_cls set" where
  "struct_refs (StructT s) = {s}"
| "struct_refs (AliasT c ts) =
     (if c = list_t \<or> c = set_t then (\<Union>t \<in> set ts. struct_refs t) else {})"
| "struct_refs (UnionT ts) = (\<Union>t \<in> set ts. struct_refs t)"
| "struct_refs t = {}"

text \<open>The struct classes that the fields of a class refer to directly.\<close>

definition direct_refs :: "class_table \<Rightarrow> struct_cls \<Rightarrow> struct_cls set" where
  "direct_refs CT c = (\<Union>f \<in> set (fields CT c). struct_refs (ftype f))"

text \<open>The classes a top-level class refers to, directly or transitively, itself included.\<close>

inductive_set reachable :: "class_table \<Rightarrow> struct_cls \<Rightarrow> struct_cls set"
  for CT :: class_table and c0 :: struct_cls
where
  start: "c0 \<in> reachable CT c0"
| step: "c \<in> reachable CT c0 \<Longrightarrow> c' \<in> direct_refs CT c \<Longrightarrow> c' \<in> reachable CT c0"

text \<open>The nested struct classes of a top-level class: those it refers to, other than itself.\<close>

definition nested_classes :: "class_table \<Rightarrow> struct_cls \<Rightarrow> struct_cls set" where
  "nested_classes CT c0 = reachable CT c0 - {c0}"





text \<open>
  How the plugin changes over a run: the dictionary only gains entries, the store of
  generated classes only grows, and a class already in the store keeps its definition up
  to the resolution of its forward references against names the dictionary holds by then.
\<close>

definition evolves :: "MsgspecPlugin \<Rightarrow> MsgspecPlugin \<Rightarrow> bool" where
  "evolves a b =
     (struct_namespace_map a \<subseteq>\<^sub>m struct_namespace_map b
      \<and> length (models a) \<le> length (models b)
      \<and> (\<forall>i < length (models a). \<exists>ns. ns \<subseteq>\<^sub>m struct_namespace_map b
             \<and> models b ! i = resolve_model ns (models a ! i)))"

text \<open>
  Every class the dictionary holds is in the store, and no class is held under two names.
\<close>

definition wf_plugin :: "MsgspecPlugin \<Rightarrow> bool" where
  "wf_plugin self =
     ((\<forall>n i. struct_namespace_map self n = Some i \<longrightarrow> i < length (models self))
      \<and> inj_on (struct_namespace_map self) (dom (struct_namespace_map self)))"

section \<open>Example collaborators and programs\<close>

text \<open>
  An instance of \<^verbatim>\<open>typing.Union[...]\<close>, after \<^verbatim>\<open>typing.py\<close> of Python 3.11: an empty
  argument tuple raises \<^verbatim>\<open>TypeError\<close>; \<^verbatim>\<open>None\<close> is converted to the class of \<^verbatim>\<open>None\<close> and a
  string to a forward reference, which raises \<^verbatim>\<open>SyntaxError\<close> when the string is not an
  expression; the arguments of a union among the arguments take its place; of equal
  arguments the first is kept; a single argument left is returned itself, and otherwise
  the \<^verbatim>\<open>typing.Union\<close> alias of the arguments left. It is meant for names that are
  identifiers: an identifier is an expression unless it is a keyword that is no
  expression by itself, and any other string is refused here. Arguments are equal when
  they are equal values of the embedding.
\<close>

definition identifier_start :: string where
  "identifier_start = ''abcdefghijklmnopqrstuvwxyzABCDEFGHIJKLMNOPQRSTUVWXYZ_''"

definition identifier_continue :: string where
  "identifier_continue = identifier_start @ ''0123456789''"

definition is_identifier :: "string \<Rightarrow> bool" where
  "is_identifier s =
     (case s of
        [] \<Rightarrow> False
      | c # cs \<Rightarrow> c \<in> set identifier_start \<and> list_all (\<lambda>d. d \<in> set identifier_continue) cs)"

definition python_keywords :: "string list" where
  "python_keywords =
     [''and'', ''as'', ''assert'', ''async'', ''await'', ''break'', ''class'', ''continue'',
      ''def'', ''del'', ''elif'', ''else'', ''except'', ''finally'', ''for'', ''from'',
      ''global'', ''if'', ''import'', ''in'', ''is'', ''lambda'', ''nonlocal'', ''not'', ''or'',
      ''pass'', ''raise'', ''return'', ''try'', ''while'', ''with'', ''yield'']"

definition is_expression :: "string \<Rightarrow> bool" where
  "is_expression s = (is_identifier s \<and> s \<notin> set python_keywords)"

fun type_convert :: "ty \<Rightarrow> error + ty" where
  "type_convert (ValueT PyNone) = Inr NoneTypeT"
| "type_convert (ValueT (PyStr n)) =
     (if is_expression n then Inr (ForwardRefT n) else Inl SyntaxError)"
| "type_convert t = Inr t"

fun convert_args :: "ty list \<Rightarrow> error + ty list" where
  "convert_args [] = Inr []"
| "convert_args (t # ts) =
     (case type_convert t of
        Inl e \<Rightarrow> Inl e
      | Inr r \<Rightarrow> (case convert_args ts of Inl e \<Rightarrow> Inl e | Inr rs \<Rightarrow> Inr (r # rs)))"

fun flatten_unions :: "ty list \<Rightarrow> ty list" where
  "flatten_unions [] = []"
| "flatten_unions (UnionT ts # rest) = ts @ flatten_unions rest"
| "flatten_unions (AliasT c ts # rest) =
     (if c = typing_Union then ts @ flatten_unions rest else AliasT c ts # flatten_unions rest)"
| "flatten_unions (t # rest) = t # flatten_unions rest"

definition deduplicate :: "ty list \<Rightarrow> ty list" where
  "deduplicate params = rev (remdups (rev params))"

definition Python_Union_getitem :: "ty list \<Rightarrow> error + ty" where
  "Python_Union_getitem parameters =
     (if parameters = [] then Inl TypeError
      else case convert_args parameters of
             Inl e \<Rightarrow> Inl e
           | Inr converted \<Rightarrow>
               (case deduplicate (flatten_unions converted) of
                  [p] \<Rightarrow> Inr p
                | ps \<Rightarrow> Inr (AliasT typing_Union ps)))"

text \<open>
  An instance of \<^verbatim>\<open>pydantic.create_model\<close>, after pydantic 1.x: a field named like one
  of the methods of \<^verbatim>\<open>BaseModel\<close> listed below raises \<^verbatim>\<open>NameError\<close>; a field whose name
  starts with an underscore is left out; the other fields are kept with the type and
  the metadata given. It is meant for field names that pydantic does not refuse for
  another reason and for struct names that the module \<^verbatim>\<open>pydantic.main\<close> does not define:
  pydantic binds a name that this module defines, such as \<^verbatim>\<open>Path\<close>, to the module's
  object when it builds the class.
\<close>

definition BaseModel_attributes :: "string list" where
  "BaseModel_attributes =
     [''json'', ''dict'', ''copy'', ''schema'', ''schema_json'', ''construct'', ''parse_obj'',
      ''parse_raw'', ''parse_file'', ''from_orm'', ''validate'', ''update_forward_refs'']"

definition pydantic_create_model ::
  "string \<Rightarrow> (string \<times> bool) list \<Rightarrow> field_definitions \<Rightarrow> error + pyd_model" where
  "pydantic_create_model name cfg field_definitions =
     (if list_ex (\<lambda>(k, v). k \<in> set BaseModel_attributes) field_definitions
      then Inl NameError
      else Inr \<lparr>model_name = name, model_config = cfg,
                model_fields = filter (\<lambda>(k, v). take 1 k \<noteq> ''_'') field_definitions\<rparr>)"

definition python_libs :: collaborators where
  "python_libs =
     \<lparr>typing_Union_getitem = Python_Union_getitem, create_model = pydantic_create_model\<rparr>"

text \<open>A field without default and without default factory, encoded under its own name.\<close>

definition plain_field :: "string \<Rightarrow> ty \<Rightarrow> MFieldInfo" where
  "plain_field n t = \<lparr>fname = n, ftype = t, fdefault = NODEFAULT, fdefault_factory = NODEFAULT,
                      fencode_name = Some n\<rparr>"

text \<open>The scenario of section 8 of the specification: \<^verbatim>\<open>Pet{name: str}\<close> and
  \<^verbatim>\<open>Owner{name: str, pets: list[Pet]}\<close>.\<close>

definition Pet :: struct_cls where "Pet = StructCls ''Pet'' 0"

definition Owner :: struct_cls where "Owner = StructCls ''Owner'' 1"

definition example_classes :: class_table where
  "example_classes =
     [(Owner, [plain_field ''name'' (ClassT ''str''),
               plain_field ''pets'' (AliasT list_t [StructT Pet])]),
      (Pet, [plain_field ''name'' (ClassT ''str'')])]"

text \<open>A second class named \<^verbatim>\<open>Pet\<close>, with other fields, in another program.\<close>

definition Pet2 :: struct_cls where "Pet2 = StructCls ''Pet'' 7"

definition other_classes :: class_table where
  "other_classes =
     [(Pet2, [plain_field ''age'' (ClassT ''int''),
              plain_field ''owner'' (StructT Owner)])]"

text \<open>\<^verbatim>\<open>Node{value: int, children: list[Node]}\<close>.\<close>

definition Node :: struct_cls where "Node = StructCls ''Node'' 0"

definition tree_classes :: class_table where
  "tree_classes =
     [(Node, [plain_field ''value'' (ClassT ''int''),
              plain_field ''children'' (AliasT list_t [StructT Node])])]"

text \<open>\<^verbatim>\<open>Log{json: str, children: list[Log]}\<close>.\<close>

definition Log :: struct_cls where "Log = StructCls ''Log'' 0"

definition log_classes :: class_table where
  "log_classes =
     [(Log, [plain_field ''json'' (ClassT ''str''),
             plain_field ''children'' (AliasT list_t [StructT Log])])]"

text \<open>\<^verbatim>\<open>Top{a: A, b: A'}\<close> where \<^verbatim>\<open>A\<close> and \<^verbatim>\<open>A'\<close> are two classes, both named \<^verbatim>\<open>A\<close>.\<close>

definition Top :: struct_cls where "Top = StructCls ''Top'' 0"

definition A1 :: struct_cls where "A1 = StructCls ''A'' 1"

definition A2 :: struct_cls where "A2 = StructCls ''A'' 2"

definition clash_classes :: class_table where
  "clash_classes =
     [(Top, [plain_field ''a'' (StructT A1), plain_field ''b'' (StructT A2)]),
      (A1, [plain_field ''x'' (ClassT ''int'')]),
      (A2, [plain_field ''y'' (ClassT ''str'')])]"

text \<open>A class whose name is a keyword of Python; \<^verbatim>\<open>type('class', (Struct,), {})\<close> builds one.\<close>

definition Kw :: struct_cls where "Kw = StructCls ''class'' 0"

section \<open>Termination of the class generator\<close>

text \<open>
  The names that can ever enter the dictionary are those of the classes some field of
  the class table refers to, and the name of the class converted. Each generation adds
  one of them, so the number of such names still absent decreases.
\<close>

definition all_names :: "class_table \<Rightarrow> string set" where
  "all_names CT = cls_name ` (\<Union>(c, fs) \<in> set CT. \<Union>f \<in> set fs. struct_refs (ftype f))"

definition unconverted :: "class_table \<Rightarrow> MsgspecPlugin \<Rightarrow> struct_cls set \<Rightarrow> nat" where
  "unconverted CT self S =
     card ((all_names CT \<union> cls_name ` S) - dom (struct_namespace_map self))"

text \<open>What \<open>handle_nested_stuct\<close> lets through: the classes of a set that are neither named
  like the parent nor named in the dictionary.\<close>

definition wanted :: "MsgspecPlugin \<Rightarrow> string \<Rightarrow> struct_cls set \<Rightarrow> struct_cls set" where
  "wanted self pn S = {s \<in> S. cls_name s \<noteq> pn \<and> struct_namespace_map self (cls_name s) = None}"

lemma struct_class_simps [simp]:
  "struct_class (StructT s) = Some s"
  "struct_class (ModelT i) = None"
  "struct_class (ClassT n) = None"
  "struct_class NoneTypeT = None"
  "struct_class (AliasT c ts) = None"
  "struct_class (UnionT ts) = None"
  "struct_class (ForwardRefT n) = None"
  "struct_class (ValueT v) = None"
  by (simp_all add: struct_class_def)

lemma is_complex_type_simps [simp]:
  "is_complex_type (StructT s) = False"
  "is_complex_type (ModelT i) = False"
  "is_complex_type (ClassT n) = False"
  "is_complex_type NoneTypeT = False"
  "is_complex_type (AliasT c ts) = (c = list_t \<or> c = set_t)"
  "is_complex_type (UnionT ts) = True"
  "is_complex_type (ForwardRefT n) = False"
  "is_complex_type (ValueT v) = False"
  by (auto simp: is_complex_type_def hasattr_origin_def)

lemma struct_class_Some [simp]: "struct_class t = Some s \<longleftrightarrow> t = StructT s"
  by (cases t) (auto simp: struct_class_def)

lemma struct_class_None: "struct_class t = None \<longleftrightarrow> (\<forall>s. t \<noteq> StructT s)"
  by (cases t) (auto simp: struct_class_def)

lemma is_complex_type_iff:
  "is_complex_type t \<longleftrightarrow> (\<exists>ts. t = AliasT list_t ts \<or> t = AliasT set_t ts \<or> t = UnionT ts)"
  by (cases t) (auto simp: is_complex_type_def hasattr_origin_def)

lemma set_handle_nested_stuct:
  "set (handle_nested_stuct self s pn ns) =
     (if cls_name s \<noteq> pn \<and> struct_namespace_map self (cls_name s) = None
      then insert s (set ns) else set ns)"
  by (simp add: handle_nested_stuct_def Let_def)

lemma wanted_Un: "wanted self pn (A \<union> B) = wanted self pn A \<union> wanted self pn B"
  by (auto simp: wanted_def)

lemma wanted_empty [simp]: "wanted self pn {} = {}"
  by (auto simp: wanted_def)

lemma wanted_insert:
  "wanted self pn (insert s A) =
     (if cls_name s \<noteq> pn \<and> struct_namespace_map self (cls_name s) = None
      then insert s (wanted self pn A) else wanted self pn A)"
  by (auto simp: wanted_def)

lemma struct_refs_opaque:
  "struct_class t = None \<Longrightarrow> \<not> is_complex_type t \<Longrightarrow> struct_refs t = {}"
  by (cases t) (auto simp: is_complex_type_iff struct_class_None)

text \<open>When the rebuilder returns, the discovery list has gained exactly the classes
  referred to that \<open>handle_nested_stuct\<close> lets through.\<close>

lemma get_complex_type_nested:
  "is_complex_type t \<Longrightarrow> get_complex_type lib self t pn ns = (ns', Inr r) \<Longrightarrow>
     set ns' = set ns \<union> wanted self pn (struct_refs t)"
  "type_args_loop lib self ts pn ns acc = (ns', Inr rs) \<Longrightarrow>
     set ns' = set ns \<union> wanted self pn (\<Union>t \<in> set ts. struct_refs t)"
proof (induction lib self t pn ns and lib self ts pn ns acc arbitrary: r ns' and rs ns'
       rule: get_complex_type_type_args_loop.induct)
  case (1 lib self c ts pn ns)
  then show ?case
    by (auto simp: is_complex_type_iff split: sum.splits prod.splits)
next
  case (2 lib self ts pn ns)
  then show ?case
    by (auto split: sum.splits prod.splits)
next
  case (5 lib self t ts pn ns acc)
  show ?case
  proof (cases "struct_class t")
    case (Some s)
    with 5 show ?thesis
      by (auto simp: set_handle_nested_stuct wanted_Un wanted_insert)
  next
    case None
    show ?thesis
    proof (cases "t = NoneTypeT")
      case True
      with 5 None show ?thesis by auto
    next
      case notnone: False
      show ?thesis
      proof (cases "is_complex_type t")
        case True
        with 5 None notnone show ?thesis
          by (auto simp: wanted_Un split: sum.splits prod.splits)
      next
        case False
        with 5 None notnone struct_refs_opaque[OF None False] show ?thesis by auto
      qed
    qed
  qed
qed (auto simp: is_complex_type_iff)

lemma scan_fields_nested:
  "scan_fields lib self sn fs fd ns = Inr (fd', ns') \<Longrightarrow>
     set ns' = set ns \<union> wanted self sn (\<Union>f \<in> set fs. struct_refs (ftype f))"
proof (induction fs arbitrary: fd ns)
  case Nil
  then show ?case by simp
next
  case (Cons f fs)
  show ?case
  proof (cases "struct_class (ftype f)")
    case (Some s)
    with Cons show ?thesis
      by (auto simp: set_handle_nested_stuct wanted_Un wanted_insert)
  next
    case None
    show ?thesis
    proof (cases "is_complex_type (ftype f)")
      case True
      from Cons.prems None True obtain pt ns1 where
        g: "get_complex_type lib self (ftype f) sn ns = (ns1, Inr pt)" and
        r: "scan_fields lib self sn fs
              (AList.update (fname f) (pt, generate_field_info f) fd) ns1 = Inr (fd', ns')"
        by (auto split: sum.splits prod.splits)
      from get_complex_type_nested(1)[OF True g] Cons.IH[OF r] show ?thesis
        by (auto simp: wanted_Un)
    next
      case False
      with Cons None struct_refs_opaque[OF None False] show ?thesis by auto
    qed
  qed
qed

lemma scan_fields_wanted:
  "scan_fields lib self (cls_name mc) (fields CT mc) [] [] = Inr (fd, ns) \<Longrightarrow>
     set ns = wanted self (cls_name mc) (direct_refs CT mc)"
  by (drule scan_fields_nested) (simp add: direct_refs_def)

lemma direct_refs_all_names: "cls_name ` direct_refs CT c \<subseteq> all_names CT"
proof (cases "map_of CT c")
  case None
  then show ?thesis by (simp add: fields_def direct_refs_def)
next
  case (Some fs)
  then have "(c, fs) \<in> set CT" by (rule map_of_SomeD)
  with Some show ?thesis by (fastforce simp: fields_def all_names_def direct_refs_def)
qed

lemma finite_struct_refs [simp]: "finite (struct_refs t)"
  by (induction t) auto

lemma finite_all_names [simp]: "finite (all_names CT)"
  unfolding all_names_def by (intro finite_imageI finite_UN_I) auto

lemma map_register:
  "struct_namespace_map (register self sn M) = (struct_namespace_map self)(sn \<mapsto> length (models self))"
  by (simp add: register_def)

lemma dom_register [simp]:
  "dom (struct_namespace_map (register self sn M)) = insert sn (dom (struct_namespace_map self))"
  by (simp add: map_register)

lemma finish_map: "struct_namespace_map (fst (finish self sn)) = struct_namespace_map self"
  by (simp add: finish_def split: option.splits)

text \<open>Before termination is known: where the generator returns, the dictionary has lost
  no name.\<close>

lemma to_pydantic_dom_mono_partial:
  "to_pydantic_model_class_convert_nested_dom (Inl (lib, CT, self, mc)) \<Longrightarrow>
     dom (struct_namespace_map self)
       \<subseteq> dom (struct_namespace_map (fst (to_pydantic_model_class lib CT self mc)))"
  "to_pydantic_model_class_convert_nested_dom (Inr (lib, CT, self, ss)) \<Longrightarrow>
     dom (struct_namespace_map self)
       \<subseteq> dom (struct_namespace_map (fst (convert_nested lib CT self ss)))"
proof (induction lib CT self mc and lib CT self ss
       rule: to_pydantic_model_class_convert_nested.pinduct)
  case (1 lib CT self mc)
  let ?sn = "cls_name mc"
  show ?case
  proof (cases "struct_namespace_map self ?sn = None")
    case False
    with "1.hyps" show ?thesis
      by (auto simp: to_pydantic_model_class.psimps Let_def finish_map)
  next
    case fresh: True
    show ?thesis
    proof (cases "scan_fields lib self ?sn (fields CT mc) [] []")
      case (Inl e)
      with "1.hyps" fresh show ?thesis
        by (simp add: to_pydantic_model_class.psimps Let_def)
    next
      case (Inr p)
      then obtain fd ns where sc: "scan_fields lib self ?sn (fields CT mc) [] [] = Inr (fd, ns)"
        by (cases p) auto
      show ?thesis
      proof (cases "create_model lib ?sn Config fd")
        case (Inl e)
        with "1.hyps" fresh sc show ?thesis
          by (simp add: to_pydantic_model_class.psimps Let_def)
      next
        case (Inr M)
        let ?r = "convert_nested lib CT (register self ?sn M) ns"
        from "1.IH"[OF refl fresh sc refl Inr]
        have ih: "insert ?sn (dom (struct_namespace_map self)) \<subseteq> dom (struct_namespace_map (fst ?r))"
          by simp
        have "struct_namespace_map (fst (to_pydantic_model_class lib CT self mc))
                = struct_namespace_map (fst ?r)"
          using "1.hyps" fresh sc Inr
          by (cases ?r; cases "snd ?r")
             (auto simp: to_pydantic_model_class.psimps Let_def finish_map)
        with ih show ?thesis by auto
      qed
    qed
  qed
next
  case (2 lib CT self)
  then show ?case by (simp add: convert_nested.psimps)
next
  case (3 lib CT self s ss)
  obtain s1 r1 where a: "to_pydantic_model_class lib CT self s = (s1, r1)"
    by (cases "to_pydantic_model_class lib CT self s") auto
  from "3.IH"(1) a have m1: "dom (struct_namespace_map self) \<subseteq> dom (struct_namespace_map s1)"
    by simp
  show ?case
  proof (cases r1)
    case (Inl e)
    with "3.hyps" a m1 show ?thesis by (simp add: convert_nested.psimps)
  next
    case (Inr m)
    from "3.IH"(2)[OF a[symmetric] Inr] "3.hyps" a Inr m1 show ?thesis
      by (auto simp: convert_nested.psimps)
  qed
qed

termination to_pydantic_model_class
proof (relation "inv_image (less_than <*lex*> less_than)
    (\<lambda>x. case x of
       Inl (lib, CT, self, mc) \<Rightarrow> (unconverted CT self {mc}, 0)
     | Inr (lib, CT, self, ss) \<Rightarrow> (unconverted CT self (set ss), Suc (length ss)))", goal_cases)
  case 1
  show ?case by (intro wf_inv_image wf_lex_prod wf_less_than)
next
  case (2 lib CT self mc sn b fd ns M)
  then have sc: "scan_fields lib self (cls_name mc) (fields CT mc) [] [] = Inr (fd, ns)"
    and fresh: "cls_name mc \<notin> dom (struct_namespace_map self)" and sn: "sn = cls_name mc"
    by auto
  have "set ns \<subseteq> direct_refs CT mc"
    using scan_fields_wanted[OF sc] by (auto simp: wanted_def)
  then have "cls_name ` set ns \<subseteq> cls_name ` direct_refs CT mc"
    by (rule image_mono)
  then have sub: "cls_name ` set ns \<subseteq> all_names CT"
    using direct_refs_all_names by (rule subset_trans)
  have "(all_names CT \<union> cls_name ` set ns) - insert (cls_name mc) (dom (struct_namespace_map self))
        \<subset> (all_names CT \<union> {cls_name mc}) - dom (struct_namespace_map self)"
    using sub fresh by auto
  then have "unconverted CT (register self (cls_name mc) M) (set ns) < unconverted CT self {mc}"
    unfolding unconverted_def by (auto intro!: psubset_card_mono)
  then show ?case using sn by simp
next
  case (3 lib CT self s ss)
  have "unconverted CT self {s} \<le> unconverted CT self (set (s # ss))"
    unfolding unconverted_def by (auto intro!: card_mono)
  then show ?case by auto
next
  case (4 lib CT self s ss self' r m)
  then have "self' = fst (to_pydantic_model_class lib CT self s)" by (metis fst_conv)
  with to_pydantic_dom_mono_partial(1)[OF 4(3)]
  have "dom (struct_namespace_map self) \<subseteq> dom (struct_namespace_map self')" by simp
  then have "unconverted CT self' (set ss) \<le> unconverted CT self (set (s # ss))"
    unfolding unconverted_def by (auto intro!: card_mono)
  then show ?case by auto
qed

declare to_pydantic_model_class.simps [simp del]

section \<open>The rebuilder follows the specification's steps\<close>






lemmas lib_defs =
  python_libs_def Python_Union_getitem_def deduplicate_def is_expression_def
  is_identifier_def identifier_start_def identifier_continue_def python_keywords_def
  pydantic_create_model_def BaseModel_attributes_def
  rebuild_root_def class_getitem_def TYPE_CONSTRUCTOR_MAP_def type_root_def



section \<open>The classifiers\<close>

text \<open>
  Claim C6. \<open>is_complex_type\<close> holds exactly of a generic alias whose origin is
  \<^verbatim>\<open>list\<close> or \<^verbatim>\<open>set\<close> and of an instance of the union-type class; it is false of a struct
  class, of any other class and of a plain value. It is a function of its argument alone,
  with a boolean for every object: it neither raises nor changes the plugin.
\<close>

theorem is_complex_type_characterisation:
  "is_complex_type t =
     ((\<exists>ts. t = AliasT list_t ts) \<or> (\<exists>ts. t = AliasT set_t ts) \<or> (\<exists>ts. t = UnionT ts))
   \<and> is_complex_type (StructT s) = False
   \<and> is_complex_type (ClassT n) = False
   \<and> is_complex_type NoneTypeT = False
   \<and> is_complex_type (ValueT v) = False"
  by (cases t) (auto simp: is_complex_type_def hasattr_origin_def)

text \<open>
  Claim C9. \<open>is_plugin_supported_type\<close> returns, for every object, whether it is a class
  deriving from \<^verbatim>\<open>Struct\<close>; the \<^verbatim>\<open>TypeError\<close> of the subclass test on an object that is no
  class is caught, so an error is never the result.
\<close>

theorem is_plugin_supported_type_total:
  "is_plugin_supported_type v = Inr (isclass v \<and> (\<exists>s. v = StructT s))"
  by (cases v) (auto simp: is_plugin_supported_type_def)

section \<open>Field metadata\<close>

text \<open>
  Claim C7. The keyword \<^verbatim>\<open>default\<close> is passed exactly when the descriptor's default is
  not the sentinel \<^verbatim>\<open>NODEFAULT\<close>, and then with the descriptor's value; likewise
  \<^verbatim>\<open>default_factory\<close>. A default of \<^verbatim>\<open>0\<close> and a default of \<^verbatim>\<open>None\<close> are both passed on.
\<close>

theorem generate_field_info_defaults:
  "map_of (generate_field_info field) ''default'' =
     (if fdefault field = NODEFAULT then None else Some (fdefault field))
   \<and> map_of (generate_field_info field) ''default_factory'' =
     (if fdefault_factory field = NODEFAULT then None else Some (fdefault_factory field))
   \<and> map_of (generate_field_info (field\<lparr>fdefault := PyInt 0\<rparr>)) ''default'' = Some (PyInt 0)
   \<and> map_of (generate_field_info (field\<lparr>fdefault := PyNone\<rparr>)) ''default'' = Some PyNone"
  by (simp add: generate_field_info_def Let_def update_conv' split: option.splits)

section \<open>Unknown constructors\<close>




text \<open>
  With a union type among the arguments the exception can be another one: the union of a
  class named \<^verbatim>\<open>class\<close> with \<^verbatim>\<open>None\<close>, inside a tuple alias, raises \<^verbatim>\<open>SyntaxError\<close> in
  \<^verbatim>\<open>typing.Union\<close> before the lookup is reached.
\<close>

lemma get_complex_type_SyntaxError_example:
  "type_root (AliasT (other_t ''tuple'') [UnionT [StructT Kw, NoneTypeT]])
     \<notin> {dict_t, list_t, set_t, UnionType}
   \<and> snd (get_complex_type python_libs init
        (AliasT (other_t ''tuple'') [UnionT [StructT Kw, NoneTypeT]]) ''Owner'' [])
     = Inl SyntaxError"
  by (simp add: lib_defs Kw_def handle_nested_stuct_def init_def)


section \<open>Runs of the class generator\<close>

lemma resolve_empty [simp]: "resolve Map.empty t = t"
  by (induction "Map.empty :: string \<rightharpoonup> nat" t rule: resolve.induct) (auto simp: map_idI)

lemma resolve_model_empty [simp]: "resolve_model Map.empty m = m"
  by (simp add: resolve_model_def map_idI)

lemma resolve_resolve: "resolve ns2 (resolve ns1 t) = resolve (ns2 ++ ns1) t"
  by (induction ns1 t rule: resolve.induct) (auto simp: map_add_def split: option.splits)

lemma resolve_model_resolve_model:
  "resolve_model ns2 (resolve_model ns1 m) = resolve_model (ns2 ++ ns1) m"
  by (simp add: resolve_model_def resolve_resolve comp_def case_prod_beta)

lemma evolves_refl [simp]: "evolves a a"
  unfolding evolves_def
  by (auto intro!: exI[of _ Map.empty])

lemma evolves_trans: "evolves a b \<Longrightarrow> evolves b c \<Longrightarrow> evolves a c"
proof -
  assume ab: "evolves a b" and bc: "evolves b c"
  have m: "struct_namespace_map a \<subseteq>\<^sub>m struct_namespace_map c"
    using ab bc unfolding evolves_def by (blast intro: map_le_trans)
  have l: "length (models a) \<le> length (models c)"
    using ab bc unfolding evolves_def by auto
  have "\<exists>ns. ns \<subseteq>\<^sub>m struct_namespace_map c \<and> models c ! i = resolve_model ns (models a ! i)"
    if i: "i < length (models a)" for i
  proof -
    from ab i obtain ns1 where n1: "ns1 \<subseteq>\<^sub>m struct_namespace_map b"
      and e1: "models b ! i = resolve_model ns1 (models a ! i)"
      unfolding evolves_def by blast
    from ab i have "i < length (models b)" unfolding evolves_def by auto
    with bc obtain ns2 where n2: "ns2 \<subseteq>\<^sub>m struct_namespace_map c"
      and e2: "models c ! i = resolve_model ns2 (models b ! i)"
      unfolding evolves_def by blast
    from n1 bc have "ns1 \<subseteq>\<^sub>m struct_namespace_map c"
      unfolding evolves_def by (blast intro: map_le_trans)
    with n2 have "ns2 ++ ns1 \<subseteq>\<^sub>m struct_namespace_map c" by (rule map_add_le_mapI)
    moreover have "models c ! i = resolve_model (ns2 ++ ns1) (models a ! i)"
      by (simp add: e1 e2 resolve_model_resolve_model)
    ultimately show ?thesis by blast
  qed
  with m l show ?thesis unfolding evolves_def by blast
qed

lemma evolves_register:
  "struct_namespace_map self sn = None \<Longrightarrow> evolves self (register self sn M)"
  unfolding evolves_def
  by (auto simp: register_def map_le_def nth_append intro!: exI[of _ Map.empty])

lemma evolves_finish: "evolves self (fst (finish self sn))"
proof (cases "struct_namespace_map self sn")
  case None
  then show ?thesis by (simp add: finish_def)
next
  case (Some m)
  let ?s = "fst (finish self sn)"
  from Some have c: "struct_namespace_map ?s = struct_namespace_map self"
    and ms: "models ?s = update_forward_refs (struct_namespace_map self) m (models self)"
    by (auto simp: finish_def)
  have "\<exists>ns. ns \<subseteq>\<^sub>m struct_namespace_map ?s \<and> models ?s ! i = resolve_model ns (models self ! i)"
    if "i < length (models self)" for i
  proof (cases "i = m")
    case True
    with that show ?thesis
      by (intro exI[of _ "struct_namespace_map self"]) (simp add: c ms update_forward_refs_def)
  next
    case False
    with that show ?thesis
      by (intro exI[of _ Map.empty]) (simp add: c ms update_forward_refs_def)
  qed
  then show ?thesis unfolding evolves_def by (simp add: c ms update_forward_refs_def)
qed

lemma finish_ok:
  "struct_namespace_map self sn = Some m \<Longrightarrow>
     finish self sn =
       (self\<lparr>models := update_forward_refs (struct_namespace_map self) m (models self)\<rparr>, Inr m)"
  by (simp add: finish_def)

lemma to_pydantic_hit:
  "struct_namespace_map self (cls_name mc) = Some m \<Longrightarrow>
     to_pydantic_model_class lib CT self mc =
       (self\<lparr>models := update_forward_refs (struct_namespace_map self) m (models self)\<rparr>, Inr m)"
  by (simp add: to_pydantic_model_class.simps Let_def finish_ok)

lemma to_pydantic_new:
  "struct_namespace_map self (cls_name mc) = None \<Longrightarrow>
     to_pydantic_model_class lib CT self mc =
       (case scan_fields lib self (cls_name mc) (fields CT mc) [] [] of
          Inl e \<Rightarrow> (self, Inl e)
        | Inr (fd, ns) \<Rightarrow>
            (case create_model lib (cls_name mc) Config fd of
               Inl e \<Rightarrow> (self, Inl e)
             | Inr M \<Rightarrow>
                 (case convert_nested lib CT (register self (cls_name mc) M) ns of
                    (s1, Inl e) \<Rightarrow> (s1, Inl e)
                  | (s1, Inr u) \<Rightarrow> finish s1 (cls_name mc))))"
  by (simp add: to_pydantic_model_class.simps Let_def split: sum.splits prod.splits)

lemma to_pydantic_evolves:
  "evolves self (fst (to_pydantic_model_class lib CT self mc))"
  "evolves self (fst (convert_nested lib CT self ss))"
proof (induction lib CT self mc and lib CT self ss
       rule: to_pydantic_model_class_convert_nested.induct)
  case (1 lib CT self mc)
  let ?sn = "cls_name mc"
  show ?case
  proof (cases "struct_namespace_map self ?sn")
    case (Some m)
    from evolves_finish[of self ?sn] show ?thesis
      by (simp add: to_pydantic_hit[OF Some] finish_ok[OF Some])
  next
    case fresh: None
    show ?thesis
    proof (cases "scan_fields lib self ?sn (fields CT mc) [] []")
      case (Inl e)
      with fresh show ?thesis by (simp add: to_pydantic_new)
    next
      case (Inr p)
      then obtain fd ns where sc: "scan_fields lib self ?sn (fields CT mc) [] [] = Inr (fd, ns)"
        by (cases p) auto
      show ?thesis
      proof (cases "create_model lib ?sn Config fd")
        case (Inl e)
        with fresh sc show ?thesis by (simp add: to_pydantic_new)
      next
        case (Inr M)
        obtain s1 r1 where cn: "convert_nested lib CT (register self ?sn M) ns = (s1, r1)"
          by (cases "convert_nested lib CT (register self ?sn M) ns") auto
        from "1.IH"[OF refl fresh sc refl Inr] cn have "evolves (register self ?sn M) s1"
          by simp
        with evolves_register[OF fresh] have e1: "evolves self s1" by (rule evolves_trans)
        show ?thesis
        proof (cases r1)
          case (Inl e)
          with fresh sc Inr cn e1 show ?thesis by (simp add: to_pydantic_new)
        next
          case r: (Inr u)
          from e1 evolves_finish[of s1 ?sn] have "evolves self (fst (finish s1 ?sn))"
            by (rule evolves_trans)
          with fresh sc Inr cn r show ?thesis by (simp add: to_pydantic_new)
        qed
      qed
    qed
  qed
next
  case (2 lib CT self)
  then show ?case by simp
next
  case (3 lib CT self s ss)
  obtain s1 r1 where a: "to_pydantic_model_class lib CT self s = (s1, r1)"
    by (cases "to_pydantic_model_class lib CT self s") auto
  from "3.IH"(1) a have e1: "evolves self s1" by simp
  show ?case
  proof (cases r1)
    case (Inl e)
    with a e1 show ?thesis by simp
  next
    case (Inr m)
    from "3.IH"(2)[OF a[symmetric] Inr] e1 have "evolves self (fst (convert_nested lib CT s1 ss))"
      by (rule evolves_trans[rotated])
    with a Inr show ?thesis by simp
  qed
qed

lemma to_pydantic_map_le:
  "to_pydantic_model_class lib CT self mc = (self', r) \<Longrightarrow>
     struct_namespace_map self \<subseteq>\<^sub>m struct_namespace_map self'"
  "convert_nested lib CT self ss = (self'', r') \<Longrightarrow>
     struct_namespace_map self \<subseteq>\<^sub>m struct_namespace_map self''"
proof -
  assume "to_pydantic_model_class lib CT self mc = (self', r)"
  then have "fst (to_pydantic_model_class lib CT self mc) = self'" by simp
  with to_pydantic_evolves(1)[of self lib CT mc]
  show "struct_namespace_map self \<subseteq>\<^sub>m struct_namespace_map self'"
    by (simp add: evolves_def)
next
  assume "convert_nested lib CT self ss = (self'', r')"
  then have "fst (convert_nested lib CT self ss) = self''" by simp
  with to_pydantic_evolves(2)[of self lib CT ss]
  show "struct_namespace_map self \<subseteq>\<^sub>m struct_namespace_map self''"
    by (simp add: evolves_def)
qed

lemma to_pydantic_dom_mono:
  "to_pydantic_model_class lib CT self mc = (self', r) \<Longrightarrow>
     dom (struct_namespace_map self) \<subseteq> dom (struct_namespace_map self')"
  "convert_nested lib CT self ss = (self'', r') \<Longrightarrow>
     dom (struct_namespace_map self) \<subseteq> dom (struct_namespace_map self'')"
  by (auto dest!: to_pydantic_map_le map_le_implies_dom_le)

text \<open>A successful fresh run, taken apart.\<close>

lemma to_pydantic_new_run:
  assumes fresh: "struct_namespace_map self (cls_name mc) = None"
    and run: "to_pydantic_model_class lib CT self mc = (self', Inr m)"
  obtains fd ns M s1 where
    "scan_fields lib self (cls_name mc) (fields CT mc) [] [] = Inr (fd, ns)"
    "create_model lib (cls_name mc) Config fd = Inr M"
    "convert_nested lib CT (register self (cls_name mc) M) ns = (s1, Inr ())"
    "finish s1 (cls_name mc) = (self', Inr m)"
  using run unfolding to_pydantic_new[OF fresh]
  by (auto split: sum.splits prod.splits)

lemma to_pydantic_cached:
  "to_pydantic_model_class lib CT self mc = (self', Inr m) \<Longrightarrow>
     struct_namespace_map self' (cls_name mc) = Some m"
proof (cases "struct_namespace_map self (cls_name mc)")
  case (Some i)
  assume "to_pydantic_model_class lib CT self mc = (self', Inr m)"
  with to_pydantic_hit[OF Some, of lib CT] Some show ?thesis by auto
next
  case None
  assume "to_pydantic_model_class lib CT self mc = (self', Inr m)"
  from to_pydantic_new_run[OF None this] obtain s1 where
    "finish s1 (cls_name mc) = (self', Inr m)" by metis
  then show ?thesis by (auto simp: finish_def split: option.splits)
qed









lemmas example_defs =
  fields_def Pet_def Owner_def Pet2_def Node_def Log_def Top_def A1_def A2_def Kw_def
  plain_field_def example_classes_def other_classes_def tree_classes_def log_classes_def
  clash_classes_def

lemmas run_simps =
  to_pydantic_model_class.simps example_defs lib_defs init_def register_def
  finish_def update_forward_refs_def resolve_model_def generate_field_info_def
  handle_nested_stuct_def Let_def

text \<open>The scenario of section 8: converting \<^verbatim>\<open>Owner\<close> with a new plugin generates the class
  for \<^verbatim>\<open>Owner\<close>, then the class for \<^verbatim>\<open>Pet\<close>, and resolves the element type of \<^verbatim>\<open>pets\<close>.\<close>

lemma example_run:
  "to_pydantic_model_class python_libs example_classes init Owner =
     (\<lparr>struct_namespace_map = [''Owner'' \<mapsto> 0, ''Pet'' \<mapsto> 1],
       models =
         [\<lparr>model_name = ''Owner'', model_config = Config,
           model_fields =
             [(''name'', (ClassT ''str'', [(''alias'', PyStr ''name'')])),
              (''pets'', (AliasT list_t [ModelT 1], [(''alias'', PyStr ''pets'')]))]\<rparr>,
          \<lparr>model_name = ''Pet'', model_config = Config,
           model_fields = [(''name'', (ClassT ''str'', [(''alias'', PyStr ''name'')]))]\<rparr>]\<rparr>,
      Inr 0)"
  by (simp add: run_simps)

lemma pet_run:
  "to_pydantic_model_class python_libs example_classes init Pet =
     (\<lparr>struct_namespace_map = [''Pet'' \<mapsto> 0],
       models =
         [\<lparr>model_name = ''Pet'', model_config = Config,
           model_fields = [(''name'', (ClassT ''str'', [(''alias'', PyStr ''name'')]))]\<rparr>]\<rparr>,
      Inr 0)"
  by (simp add: run_simps)




section \<open>Termination and self-reference\<close>




section \<open>Memoization\<close>

text \<open>
  Claim C4. When a conversion has returned a class, converting the same struct class
  again with the resulting plugin returns the class with the same identity; the
  dictionary is unchanged and no class object is created.
\<close>

theorem to_pydantic_idempotent:
  "to_pydantic_model_class lib CT self mc = (self1, Inr m1) \<Longrightarrow>
     \<exists>self2. to_pydantic_model_class lib CT self1 mc = (self2, Inr m1)
       \<and> struct_namespace_map self2 = struct_namespace_map self1
       \<and> length (models self2) = length (models self1)"
  by (drule to_pydantic_cached, drule to_pydantic_hit[where CT = CT and lib = lib])
     (simp add: update_forward_refs_def)

theorem to_pydantic_idempotent_witness:
  "\<exists>self1 self2. to_pydantic_model_class python_libs example_classes init Owner = (self1, Inr 0)
     \<and> to_pydantic_model_class python_libs example_classes self1 Owner = (self2, Inr 0)
     \<and> struct_namespace_map self2 = struct_namespace_map self1
     \<and> length (models self2) = length (models self1)"
  using to_pydantic_idempotent[OF example_run] example_run by blast

text \<open>
  Claim C5. A new plugin has an empty dictionary. Over one conversion, and over any
  sequence of conversions run one after the other (\<open>convert_nested\<close> on the list of the
  classes converted), whether it returns or raises, every entry of the dictionary before
  is an entry after, under the same name and with the same class: entries are added,
  never removed or overwritten. The dictionary holds one class per name by its type. The
  other operations return no plugin: they leave it as it is.
\<close>

theorem cache_only_grows:
  "struct_namespace_map init = Map.empty
   \<and> (to_pydantic_model_class lib CT self mc = (self', r)
        \<longrightarrow> struct_namespace_map self \<subseteq>\<^sub>m struct_namespace_map self')
   \<and> (convert_nested lib CT self ss = (self'', r')
        \<longrightarrow> struct_namespace_map self \<subseteq>\<^sub>m struct_namespace_map self'')"
  using to_pydantic_map_le[of lib CT self] by (auto simp: init_def)

theorem cache_only_grows_witness:
  "struct_namespace_map init = Map.empty
   \<and> (\<exists>self1 self2 r2 self3 r3.
         to_pydantic_model_class python_libs example_classes init Owner = (self1, Inr 0)
         \<and> struct_namespace_map self1 ''Owner'' = Some 0
         \<and> to_pydantic_model_class python_libs other_classes self1 Pet2 = (self2, r2)
         \<and> struct_namespace_map self1 \<subseteq>\<^sub>m struct_namespace_map self2
         \<and> convert_nested python_libs example_classes self1 [Pet, Owner] = (self3, r3)
         \<and> struct_namespace_map self1 \<subseteq>\<^sub>m struct_namespace_map self3)"
proof -
  obtain self1 where r1: "to_pydantic_model_class python_libs example_classes init Owner = (self1, Inr 0)"
    and c1: "struct_namespace_map self1 ''Owner'' = Some 0"
    using example_run by simp
  obtain self2 r2 where r2: "to_pydantic_model_class python_libs other_classes self1 Pet2 = (self2, r2)"
    by (cases "to_pydantic_model_class python_libs other_classes self1 Pet2") auto
  obtain self3 r3 where r3: "convert_nested python_libs example_classes self1 [Pet, Owner] = (self3, r3)"
    by (cases "convert_nested python_libs example_classes self1 [Pet, Owner]") auto
  from cache_only_grows[of python_libs other_classes self1 Pet2 self2 r2 "[]" self1 "Inr ()"] r2
  have a: "struct_namespace_map init = Map.empty
           \<and> struct_namespace_map self1 \<subseteq>\<^sub>m struct_namespace_map self2" by simp
  from cache_only_grows[of python_libs example_classes self1 Pet2 self2 r2 "[Pet, Owner]" self3 r3] r3
  have b: "struct_namespace_map self1 \<subseteq>\<^sub>m struct_namespace_map self3" by simp
  from r1 c1 r2 r3 a b show ?thesis by blast
qed

text \<open>
  Claim C10. The dictionary is keyed by the class name. After a struct class has been
  converted, converting any struct class of the same name, in whatever class table and
  with whatever collaborators, returns the class generated for the first and only
  resolves that class's forward references once more: the result does not depend on the
  second class's fields.
\<close>

theorem memoization_by_name:
  "cls_name c2 = cls_name c1 \<Longrightarrow> to_pydantic_model_class lib CT self c1 = (self1, Inr m1) \<Longrightarrow>
     to_pydantic_model_class lib' CT' self1 c2 =
       (self1\<lparr>models := update_forward_refs (struct_namespace_map self1) m1 (models self1)\<rparr>,
        Inr m1)"
  by (drule to_pydantic_cached) (simp add: to_pydantic_hit)

theorem memoization_by_name_witness:
  "cls_name Pet2 = cls_name Pet \<and> Pet2 \<noteq> Pet
   \<and> fields other_classes Pet2 \<noteq> fields example_classes Pet
   \<and> (\<exists>self1. to_pydantic_model_class python_libs example_classes init Pet = (self1, Inr 0)
        \<and> to_pydantic_model_class python_libs other_classes self1 Pet2 =
            (self1\<lparr>models :=
                   update_forward_refs (struct_namespace_map self1) 0 (models self1)\<rparr>, Inr 0))"
proof -
  have n: "cls_name Pet2 = cls_name Pet" by (simp add: Pet_def Pet2_def)
  from memoization_by_name[OF n pet_run, of python_libs other_classes] pet_run n show ?thesis
    by (auto simp: example_defs)
qed

section \<open>Discovery of nested classes\<close>

lemma wf_register:
  "wf_plugin self \<Longrightarrow> struct_namespace_map self sn = None \<Longrightarrow> wf_plugin (register self sn M)"
proof -
  assume wf: "wf_plugin self" and fresh: "struct_namespace_map self sn = None"
  let ?i = "length (models self)"
  from wf have bound: "struct_namespace_map self n = Some i \<Longrightarrow> i < ?i" for n i
    by (simp add: wf_plugin_def)
  from wf have inj: "inj_on (struct_namespace_map self) (dom (struct_namespace_map self))"
    by (simp add: wf_plugin_def)
  have "struct_namespace_map self n \<noteq> Some ?i" for n
    using bound[of n ?i] by auto
  with inj have "inj_on ((struct_namespace_map self)(sn \<mapsto> ?i))
                   (insert sn (dom (struct_namespace_map self)))"
    by (auto simp: inj_on_def)
  moreover have "((struct_namespace_map self)(sn \<mapsto> ?i)) n = Some i \<Longrightarrow> i < Suc ?i" for n i
    using bound[of n i] by (auto simp: less_Suc_eq split: if_splits)
  ultimately show ?thesis
    by (simp add: wf_plugin_def register_def)
qed

lemma wf_finish: "wf_plugin self \<Longrightarrow> wf_plugin (fst (finish self sn))"
  unfolding wf_plugin_def
  by (auto simp: finish_def update_forward_refs_def split: option.splits)

lemma to_pydantic_wf:
  "wf_plugin self \<Longrightarrow> wf_plugin (fst (to_pydantic_model_class lib CT self mc))"
  "wf_plugin self \<Longrightarrow> wf_plugin (fst (convert_nested lib CT self ss))"
proof (induction lib CT self mc and lib CT self ss
       rule: to_pydantic_model_class_convert_nested.induct)
  case (1 lib CT self mc)
  let ?sn = "cls_name mc"
  show ?case
  proof (cases "struct_namespace_map self ?sn")
    case (Some m)
    from wf_finish[OF "1.prems", of ?sn] show ?thesis
      by (simp add: to_pydantic_hit[OF Some] finish_ok[OF Some])
  next
    case fresh: None
    show ?thesis
    proof (cases "scan_fields lib self ?sn (fields CT mc) [] []")
      case (Inl e)
      with fresh "1.prems" show ?thesis by (simp add: to_pydantic_new)
    next
      case (Inr p)
      then obtain fd ns where sc: "scan_fields lib self ?sn (fields CT mc) [] [] = Inr (fd, ns)"
        by (cases p) auto
      show ?thesis
      proof (cases "create_model lib ?sn Config fd")
        case (Inl e)
        with fresh sc "1.prems" show ?thesis by (simp add: to_pydantic_new)
      next
        case (Inr M)
        obtain s1 r1 where cn: "convert_nested lib CT (register self ?sn M) ns = (s1, r1)"
          by (cases "convert_nested lib CT (register self ?sn M) ns") auto
        from "1.IH"[OF refl fresh sc refl Inr wf_register[OF "1.prems" fresh]] cn
        have w1: "wf_plugin s1" by simp
        show ?thesis
        proof (cases r1)
          case (Inl e)
          with fresh sc Inr cn w1 show ?thesis by (simp add: to_pydantic_new)
        next
          case r: (Inr u)
          from wf_finish[OF w1, of ?sn] fresh sc Inr cn r show ?thesis
            by (simp add: to_pydantic_new)
        qed
      qed
    qed
  qed
next
  case (2 lib CT self)
  then show ?case by simp
next
  case (3 lib CT self s ss)
  obtain s1 r1 where a: "to_pydantic_model_class lib CT self s = (s1, r1)"
    by (cases "to_pydantic_model_class lib CT self s") auto
  from "3.IH"(1)[OF "3.prems"] a have w1: "wf_plugin s1" by simp
  show ?case
  proof (cases r1)
    case (Inl e)
    with a w1 show ?thesis by simp
  next
    case (Inr m)
    from "3.IH"(2)[OF a[symmetric] Inr w1] a Inr show ?thesis by simp
  qed
qed

lemma discovery:
  assumes inj: "inj_on cls_name R"
  shows
  "(\<forall>c\<in>R. direct_refs CT c \<subseteq> R) \<Longrightarrow> mc \<in> R \<Longrightarrow>
     to_pydantic_model_class lib CT self mc = (self', Inr m) \<Longrightarrow>
     cls_name mc \<in> dom (struct_namespace_map self')
     \<and> dom (struct_namespace_map self') \<subseteq> dom (struct_namespace_map self) \<union> cls_name ` R
     \<and> (\<forall>x\<in>R. cls_name x \<in> dom (struct_namespace_map self') - dom (struct_namespace_map self)
           \<longrightarrow> cls_name ` direct_refs CT x \<subseteq> dom (struct_namespace_map self'))"
  "(\<forall>c\<in>R. direct_refs CT c \<subseteq> R) \<Longrightarrow> set ss \<subseteq> R \<Longrightarrow>
     convert_nested lib CT self ss = (self'', Inr u) \<Longrightarrow>
     cls_name ` set ss \<subseteq> dom (struct_namespace_map self'')
     \<and> dom (struct_namespace_map self'') \<subseteq> dom (struct_namespace_map self) \<union> cls_name ` R
     \<and> (\<forall>x\<in>R. cls_name x \<in> dom (struct_namespace_map self'') - dom (struct_namespace_map self)
           \<longrightarrow> cls_name ` direct_refs CT x \<subseteq> dom (struct_namespace_map self''))"
proof (induction lib CT self mc and lib CT self ss arbitrary: self' m and self'' u
       rule: to_pydantic_model_class_convert_nested.induct)
  case (1 lib CT self mc)
  let ?sn = "cls_name mc"
  show ?case
  proof (cases "struct_namespace_map self ?sn")
    case (Some i)
    with "1.prems"(3) to_pydantic_hit[OF Some, of lib CT]
    have "struct_namespace_map self' = struct_namespace_map self" by auto
    with Some show ?thesis by auto
  next
    case fresh: None
    from to_pydantic_new_run[OF fresh "1.prems"(3)] obtain fd ns M s1 where
      sc: "scan_fields lib self ?sn (fields CT mc) [] [] = Inr (fd, ns)" and
      cm: "create_model lib ?sn Config fd = Inr M" and
      cn: "convert_nested lib CT (register self ?sn M) ns = (s1, Inr ())" and
      fi: "finish s1 ?sn = (self', Inr m)"
      by metis
    have w: "set ns = wanted self ?sn (direct_refs CT mc)" using sc by (rule scan_fields_wanted)
    then have nsR: "set ns \<subseteq> R" using "1.prems"(1,2) by (auto simp: wanted_def)
    note ih = "1.IH"[OF refl fresh sc refl cm "1.prems"(1) nsR cn]
    have c': "struct_namespace_map self' = struct_namespace_map s1"
      using finish_map[of s1 ?sn] fi by simp
    have mono: "insert ?sn (dom (struct_namespace_map self)) \<subseteq> dom (struct_namespace_map s1)"
      using to_pydantic_dom_mono(2)[OF cn] by simp
    have i: "?sn \<in> dom (struct_namespace_map s1)" using mono by auto
    have ii: "dom (struct_namespace_map s1) \<subseteq> dom (struct_namespace_map self) \<union> cls_name ` R"
      using ih "1.prems"(2) by auto
    have iii: "cls_name ` direct_refs CT x \<subseteq> dom (struct_namespace_map s1)"
      if x: "x \<in> R" and new: "cls_name x \<in> dom (struct_namespace_map s1) - dom (struct_namespace_map self)"
      for x
    proof (cases "cls_name x = ?sn")
      case True
      with inj x "1.prems"(2) have "x = mc" by (auto dest: inj_onD)
      show ?thesis
      proof
        fix n assume "n \<in> cls_name ` direct_refs CT x"
        then obtain y where y: "y \<in> direct_refs CT mc" and n: "n = cls_name y"
          using \<open>x = mc\<close> by auto
        show "n \<in> dom (struct_namespace_map s1)"
        proof (cases "y \<in> set ns")
          case True
          with ih n show ?thesis by auto
        next
          case False
          with w y have "cls_name y = ?sn \<or> struct_namespace_map self (cls_name y) \<noteq> None"
            by (auto simp: wanted_def)
          with mono n show ?thesis by auto
        qed
      qed
    next
      case False
      with new have "cls_name x \<in> dom (struct_namespace_map s1)
                       - dom (struct_namespace_map (register self ?sn M))" by auto
      with ih x show ?thesis by blast
    qed
    from i ii iii show ?thesis unfolding c' by blast
  qed
next
  case (2 lib CT self)
  then show ?case by simp
next
  case (3 lib CT self s ss)
  from "3.prems"(3) obtain s1 m1 where
    a: "to_pydantic_model_class lib CT self s = (s1, Inr m1)" and
    b: "convert_nested lib CT s1 ss = (self'', Inr u)"
    by (auto split: sum.splits prod.splits)
  from "3.prems"(2) have sR: "s \<in> R" and ssR: "set ss \<subseteq> R" by auto
  note ih1 = "3.IH"(1)[OF "3.prems"(1) sR a]
  note ih2 = "3.IH"(2)[OF a[symmetric] refl "3.prems"(1) ssR b]
  note m1 = to_pydantic_dom_mono(1)[OF a]
  note m2 = to_pydantic_dom_mono(2)[OF b]
  have i: "cls_name ` set (s # ss) \<subseteq> dom (struct_namespace_map self'')"
    using ih1 ih2 m2 by auto
  have ii: "dom (struct_namespace_map self'') \<subseteq> dom (struct_namespace_map self) \<union> cls_name ` R"
    using ih1 ih2 by blast
  have iii: "cls_name ` direct_refs CT x \<subseteq> dom (struct_namespace_map self'')"
    if x: "x \<in> R" and new: "cls_name x \<in> dom (struct_namespace_map self'') - dom (struct_namespace_map self)"
    for x
  proof (cases "cls_name x \<in> dom (struct_namespace_map s1)")
    case True
    with new ih1 x have "cls_name ` direct_refs CT x \<subseteq> dom (struct_namespace_map s1)" by blast
    with m2 show ?thesis by blast
  next
    case False
    with new ih2 x show ?thesis by blast
  qed
  from i ii iii show ?case by blast
qed

lemma reachable_closed: "\<forall>c\<in>reachable CT c0. direct_refs CT c \<subseteq> reachable CT c0"
  by (auto intro: reachable.step)

lemma direct_refs_sub:
  "direct_refs CT c \<subseteq> (\<Union>(c, fs) \<in> set CT. \<Union>f \<in> set fs. struct_refs (ftype f))"
proof (cases "map_of CT c")
  case None
  then show ?thesis by (simp add: fields_def direct_refs_def)
next
  case (Some fs)
  then have "(c, fs) \<in> set CT" by (rule map_of_SomeD)
  with Some show ?thesis by (fastforce simp: fields_def direct_refs_def)
qed

lemma finite_reachable [simp]: "finite (reachable CT c0)"
proof -
  have "reachable CT c0 \<subseteq> insert c0 (\<Union>(c, fs) \<in> set CT. \<Union>f \<in> set fs. struct_refs (ftype f))"
  proof
    fix x assume "x \<in> reachable CT c0"
    then show "x \<in> insert c0 (\<Union>(c, fs) \<in> set CT. \<Union>f \<in> set fs. struct_refs (ftype f))"
      by (induction rule: reachable.induct) (use direct_refs_sub in blast)+
  qed
  moreover have "finite (insert c0 (\<Union>(c, fs) \<in> set CT. \<Union>f \<in> set fs. struct_refs (ftype f)))"
    by (intro finite.insertI finite_UN_I) auto
  ultimately show ?thesis by (rule finite_subset)
qed

lemma example_reachable: "reachable example_classes Owner = {Owner, Pet}"
proof
  show "reachable example_classes Owner \<subseteq> {Owner, Pet}"
  proof
    fix x assume "x \<in> reachable example_classes Owner"
    then show "x \<in> {Owner, Pet}"
      by (induction rule: reachable.induct)
         (auto simp: direct_refs_def example_defs split: if_splits)
  qed
next
  have "Pet \<in> direct_refs example_classes Owner"
    by (simp add: direct_refs_def example_defs)
  with reachable.start[of Owner example_classes] have "Pet \<in> reachable example_classes Owner"
    by (rule reachable.step)
  then show "{Owner, Pet} \<subseteq> reachable example_classes Owner"
    by (simp add: reachable.start)
qed

lemma clash_reachable: "reachable clash_classes Top = {Top, A1, A2}"
proof
  show "reachable clash_classes Top \<subseteq> {Top, A1, A2}"
  proof
    fix x assume "x \<in> reachable clash_classes Top"
    then show "x \<in> {Top, A1, A2}"
      by (induction rule: reachable.induct)
         (auto simp: direct_refs_def example_defs split: if_splits)
  qed
next
  have "A1 \<in> direct_refs clash_classes Top" "A2 \<in> direct_refs clash_classes Top"
    by (simp_all add: direct_refs_def example_defs)
  with reachable.start[of Top clash_classes]
  have "A1 \<in> reachable clash_classes Top" "A2 \<in> reachable clash_classes Top"
    by (auto intro: reachable.step)
  then show "{Top, A1, A2} \<subseteq> reachable clash_classes Top"
    by (simp add: reachable.start)
qed

text \<open>
  Claim C1, as the source has it. Let the classes that a struct class refers to, directly
  or transitively, itself included, have pairwise distinct names, and let the dictionary
  be empty. After one forward conversion that returns, the names in the dictionary are
  exactly the names of these classes: with \<open>N\<close> nested classes the dictionary has \<open>N + 1\<close>
  entries, and the entries hold pairwise different generated classes.
\<close>

theorem nested_discovery_complete:
  assumes empty: "struct_namespace_map self = Map.empty"
    and inj: "inj_on cls_name (reachable CT mc)"
    and run: "to_pydantic_model_class lib CT self mc = (self', Inr m)"
  shows "dom (struct_namespace_map self') = cls_name ` reachable CT mc
         \<and> card (dom (struct_namespace_map self')) = card (nested_classes CT mc) + 1
         \<and> inj_on (struct_namespace_map self') (dom (struct_namespace_map self'))"
proof -
  let ?D = "dom (struct_namespace_map self')"
  note d = discovery(1)[OF inj reachable_closed reachable.start run]
  have sub: "?D \<subseteq> cls_name ` reachable CT mc" using d empty by auto
  have "cls_name x \<in> ?D" if "x \<in> reachable CT mc" for x
    using that
  proof (induction rule: reachable.induct)
    case start
    from d show ?case by simp
  next
    case (step c c')
    with d empty have "cls_name ` direct_refs CT c \<subseteq> ?D" by auto
    with step show ?case by auto
  qed
  with sub have eq: "?D = cls_name ` reachable CT mc" by auto
  have "card ?D = card (reachable CT mc)" unfolding eq using inj by (rule card_image)
  also have "\<dots> = card (nested_classes CT mc) + 1"
    unfolding nested_classes_def
    using card_Suc_Diff1[OF finite_reachable reachable.start, of CT mc] by simp
  finally have c: "card ?D = card (nested_classes CT mc) + 1" .
  have "wf_plugin self" using empty by (simp add: wf_plugin_def)
  from to_pydantic_wf(1)[OF this, of lib CT mc] run
  have "inj_on (struct_namespace_map self') ?D"
    by (simp add: wf_plugin_def)
  with eq c show ?thesis by blast
qed

theorem nested_discovery_complete_witness:
  "struct_namespace_map init = Map.empty
   \<and> inj_on cls_name (reachable example_classes Owner)
   \<and> card (nested_classes example_classes Owner) = 1
   \<and> (\<exists>self'. to_pydantic_model_class python_libs example_classes init Owner = (self', Inr 0)
        \<and> dom (struct_namespace_map self') = {''Owner'', ''Pet''}
        \<and> card (dom (struct_namespace_map self')) = 2
        \<and> inj_on (struct_namespace_map self') (dom (struct_namespace_map self')))"
proof -
  have e: "struct_namespace_map init = Map.empty" by (simp add: init_def)
  have i: "inj_on cls_name (reachable example_classes Owner)"
    unfolding example_reachable by (simp add: Owner_def Pet_def)
  have n: "card (nested_classes example_classes Owner) = 1"
    unfolding nested_classes_def example_reachable by (simp add: Owner_def Pet_def)
  have names: "cls_name ` {Owner, Pet} = {''Owner'', ''Pet''}"
    by (simp add: Owner_def Pet_def)
  let ?S = "fst (to_pydantic_model_class python_libs example_classes init Owner)"
  have run: "to_pydantic_model_class python_libs example_classes init Owner = (?S, Inr 0)"
    by (simp add: example_run)
  note t = nested_discovery_complete[OF e i run]
  from t have d: "dom (struct_namespace_map ?S) = {''Owner'', ''Pet''}"
    unfolding example_reachable names by (rule conjunct1)
  from t have "card (dom (struct_namespace_map ?S)) = card (nested_classes example_classes Owner) + 1"
    by (elim conjE)
  then have c: "card (dom (struct_namespace_map ?S)) = 2"
    unfolding n by simp
  from t have j: "inj_on (struct_namespace_map ?S) (dom (struct_namespace_map ?S))"
    by (elim conjE)
  from e i n run d c j show ?thesis by blast
qed

text \<open>
  The claim as the specification words it counts the nested classes. \<^verbatim>\<open>Top\<close> refers to two
  distinct nested classes that share the name \<^verbatim>\<open>A\<close>; three entries are claimed, and the
  dictionary has two after the conversion.
\<close>

theorem nested_discovery_counterexample:
  "card (nested_classes clash_classes Top) + 1 = 3
   \<and> (case to_pydantic_model_class python_libs clash_classes init Top of
        (self', Inl e) \<Rightarrow> False
      | (self', Inr m) \<Rightarrow> card (dom (struct_namespace_map self')) = 2)"
proof -
  have "nested_classes clash_classes Top = {Top, A1, A2} - {Top}"
    unfolding nested_classes_def clash_reachable ..
  also have "\<dots> = {A1, A2}"
    by (auto simp: Top_def A1_def A2_def)
  finally have "card (nested_classes clash_classes Top) + 1 = 3"
    by (simp add: A1_def A2_def)
  moreover have "case to_pydantic_model_class python_libs clash_classes init Top of
        (self', Inl e) \<Rightarrow> False
      | (self', Inr m) \<Rightarrow> card (dom (struct_namespace_map self')) = 2"
    by (simp add: run_simps)
  ultimately show ?thesis by blast
qed

end
